theory Spec2Isabelle
  imports Main "HOL-Library.Sublist"
begin

unbundle bit_operations_syntax

section \<open>DNS authenticator plugins: the common code (certbot/plugins/dns\_common.py)\<close>

subsection \<open>Errors and Python strings\<close>

text \<open>
  Every \<^verbatim>\<open>raise\<close> of the module is a value. \<open>PluginError\<close> is
  \<^verbatim>\<open>errors.PluginError\<close>. The others are raised by the libraries the module
  calls and are not caught by it: \<open>ValueError\<close> and \<open>OverflowError\<close> by
  \<^verbatim>\<open>time.sleep\<close>; \<open>ConfigObjError\<close> by the parser of \<^verbatim>\<open>configobj\<close>;
  \<open>MissingInterpolationOption\<close> by \<^verbatim>\<open>ConfigObj.get\<close>, which interpolates
  \<^verbatim>\<open>%(name)s\<close> in the value it reads; \<open>TypeError\<close> by \<^verbatim>\<open>os.path.exists(None)\<close>.
\<close>

datatype error =
    PluginError string
  | ValueError string
  | OverflowError string
  | ConfigObjError string
  | MissingInterpolationOption string
  | TypeError string

text \<open>\<^verbatim>\<open>s.split(sep)\<close> for a one-character separator: one fragment more than
  there are separators in \<open>s\<close>, the empty string giving one empty fragment.\<close>

fun str_split :: "char \<Rightarrow> string \<Rightarrow> string list" where
  "str_split sep [] = [[]]"
| "str_split sep (c # cs) =
     (let fragments = str_split sep cs
      in if c = sep then [] # fragments
         else (c # hd fragments) # tl fragments)"

text \<open>\<^verbatim>\<open>sep.join(xs)\<close>.\<close>

fun str_join :: "string \<Rightarrow> string list \<Rightarrow> string" where
  "str_join sep [] = []"
| "str_join sep [x] = x"
| "str_join sep (x # y # ys) = x @ sep @ str_join sep (y # ys)"

text \<open>Python truthiness of a value that is \<^verbatim>\<open>None\<close> or a string.\<close>

fun truthy :: "string option \<Rightarrow> bool" where
  "truthy None = False"
| "truthy (Some v) = (v \<noteq> [])"

subsection \<open>\<^verbatim>\<open>base_domain_name_guesses\<close>\<close>

text \<open>
  \<^verbatim>\<open>fragments = domain.split('.')\<close>,
  \<^verbatim>\<open>return ['.'.join(fragments[i:]) for i in range(0, len(fragments))]\<close>.
\<close>

definition base_domain_name_guesses :: "string \<Rightarrow> string list" where
  "base_domain_name_guesses domain =
     (let fragments = str_split CHR ''.'' domain
      in map (\<lambda>i. str_join ''.'' (drop i fragments)) [0..<length fragments])"

text \<open>
  Two notions the statements about the guesses are phrased with, defined on the
  string itself and not through \<open>str_split\<close>: the suffixes that start right after
  a dot, from left to right, and the final label (what follows the last dot, the
  whole string when it has no dot).
\<close>

fun suffixes_after_dots :: "string \<Rightarrow> string list" where
  "suffixes_after_dots [] = []"
| "suffixes_after_dots (c # cs) =
     (if c = CHR ''.'' then cs # suffixes_after_dots cs else suffixes_after_dots cs)"

definition final_label :: "string \<Rightarrow> string" where
  "final_label d = rev (takeWhile (\<lambda>c. c \<noteq> CHR ''.'') (rev d))"

subsection \<open>File validation\<close>









subsection \<open>\<^verbatim>\<open>CredentialsConfiguration\<close>\<close>

text \<open>
  A value of the parsed file: a string, a list of strings
  (\<^verbatim>\<open>key = a, b\<close>) or a section, given by the names of its members.
  \<open>truthy_value\<close> is the truth value Python gives it: false when it is empty.
\<close>

datatype confobj_value =
    Str string
  | Lst "string list"
  | Sect "string list"


text \<open>
  The \<^verbatim>\<open>ConfigObj\<close> of a \<open>CredentialsConfiguration\<close>: \<open>confobj_filename\<close> is
  its \<^verbatim>\<open>filename\<close> attribute, \<open>confobj\<close> the values as the file holds them, and
  \<open>interpolation\<close> what reading the value of a key does to it
  (\<^verbatim>\<open>ConfigObj.__getitem__\<close>: the value with its \<^verbatim>\<open>%(name)s\<close> references replaced,
  or the exception of a reference that cannot be resolved). The parser and the
  interpolation are the library's and are parameters here.
\<close>

type_synonym interpolation = "string \<Rightarrow> confobj_value \<Rightarrow> error + confobj_value"

record credentials_configuration =
  confobj_filename :: string
  confobj :: "string \<rightharpoonup> confobj_value"
  interpolation :: interpolation
  mapper :: "string \<Rightarrow> string"



text \<open>\<^verbatim>\<open>_get\<close>: \<^verbatim>\<open>self.confobj.get(self.mapper(var))\<close>, which is \<^verbatim>\<open>None\<close> for an
  absent key and reads the value, interpolating it, for a present one.\<close>

definition cc_get ::
  "credentials_configuration \<Rightarrow> string \<Rightarrow> error + confobj_value option" where
  "cc_get cc var =
     (case confobj cc (mapper cc var) of
        None \<Rightarrow> Inr None
      | Some raw \<Rightarrow>
          (case interpolation cc (mapper cc var) raw of
             Inl e \<Rightarrow> Inl e
           | Inr v \<Rightarrow> Inr (Some v)))"

definition cc_conf ::
  "credentials_configuration \<Rightarrow> string \<Rightarrow> error + confobj_value option" where
  "cc_conf cc var = cc_get cc var"










subsection \<open>\<^verbatim>\<open>DNSAuthenticator\<close>: challenges, the provider binding, the instance\<close>

text \<open>
  An annotated challenge, as \<open>perform\<close> and \<open>cleanup\<close> use it: the attributes
  \<^verbatim>\<open>domain\<close> and \<^verbatim>\<open>account_key\<close>, and the methods
  \<^verbatim>\<open>validation_domain_name(domain)\<close>, \<^verbatim>\<open>validation(account_key)\<close> and
  \<^verbatim>\<open>response(account_key)\<close> of the ACME library, which are pure.
\<close>

record ('k, 'r) achall =
  domain :: string
  account_key :: 'k
  validation_domain_name :: "string \<Rightarrow> string"
  validation :: "'k \<Rightarrow> string"
  response :: "'k \<Rightarrow> 'r"

text \<open>
  The abstract methods \<^verbatim>\<open>_setup_credentials\<close>, \<^verbatim>\<open>_perform\<close> and
  \<^verbatim>\<open>_cleanup\<close>, which a provider's plugin implements. They act on the provider's
  own state \<open>'p\<close> (its API client, the records of the zone) and not on the
  attributes of the base class; a call returns the exception it raised, if any,
  and the state it left.
\<close>

record 'p binding =
  abs_setup_credentials :: "'p \<Rightarrow> error option \<times> 'p"
  abs_perform :: "string \<Rightarrow> string \<Rightarrow> string \<Rightarrow> 'p \<Rightarrow> error option \<times> 'p"
  abs_cleanup :: "string \<Rightarrow> string \<Rightarrow> string \<Rightarrow> 'p \<Rightarrow> error option \<times> 'p"

text \<open>The calls an instance makes, each logged with its outcome (\<open>None\<close> when
  it returned, the exception when it raised).\<close>

datatype call =
    Setup_credentials
  | Perform string string string
  | Cleanup string string string
  | Sleep int

type_synonym event = "call \<times> error option"

text \<open>
  The instance: the attribute \<^verbatim>\<open>_attempt_cleanup\<close>, the configured value
  \<^verbatim>\<open>self.conf('propagation-seconds')\<close> (an integer, by \<^verbatim>\<open>type=int\<close>), the
  provider's state and the log of the calls made so far.
\<close>

record 'p authenticator =
  attempt_cleanup :: bool
  propagation_seconds :: int
  provider :: 'p
  trace :: "event list"

text \<open>A fresh instance: the class attribute \<^verbatim>\<open>_attempt_cleanup = False\<close>.\<close>

definition DNSAuthenticator :: "int \<Rightarrow> 'p \<Rightarrow> 'p authenticator" where
  "DNSAuthenticator seconds p =
     \<lparr>attempt_cleanup = False, propagation_seconds = seconds, provider = p, trace = []\<rparr>"


text \<open>
  \<^verbatim>\<open>time.sleep\<close> on an integer. CPython 3 first converts the seconds to a signed
  64-bit number of nanoseconds and raises \<open>OverflowError\<close> when they do not fit,
  that is beyond \<open>sleep_max\<close> seconds either way; then it raises \<open>ValueError\<close> on
  a negative value; otherwise it sleeps and returns.
\<close>

definition sleep_max :: int where
  "sleep_max = 9223372036854775807 div 1000000000"

definition sleep :: "int \<Rightarrow> error option" where
  "sleep secs =
     (if secs < - sleep_max \<or> sleep_max < secs
        then Some (OverflowError ''timestamp too large to convert to C _PyTime_t'')
      else if secs < 0
        then Some (ValueError ''sleep length must be non-negative'')
      else None)"

definition perform_call :: "('k, 'r) achall \<Rightarrow> call" where
  "perform_call a =
     Perform (domain a) (validation_domain_name a (domain a)) (validation a (account_key a))"

definition cleanup_call :: "('k, 'r) achall \<Rightarrow> call" where
  "cleanup_call a =
     Cleanup (domain a) (validation_domain_name a (domain a)) (validation a (account_key a))"

text \<open>The loop of \<open>perform\<close>: an exception of \<^verbatim>\<open>_perform\<close> leaves the loop at
  once, with the state as it is then.\<close>

fun perform_loop ::
  "'p binding \<Rightarrow> ('k, 'r) achall list \<Rightarrow> 'r list \<Rightarrow> 'p authenticator \<Rightarrow>
     (error + 'r list) \<times> 'p authenticator" where
  "perform_loop b [] responses s = (Inr responses, s)"
| "perform_loop b (a # achalls) responses s =
     (let d = domain a;
          vdn = validation_domain_name a d;
          v = validation a (account_key a);
          (r, p') = abs_perform b d vdn v (provider s);
          s' = s\<lparr>provider := p', trace := trace s @ [(Perform d vdn v, r)]\<rparr>
      in case r of
           Some e \<Rightarrow> (Inl e, s')
         | None \<Rightarrow> perform_loop b achalls (responses @ [response a (account_key a)]) s')"

definition perform ::
  "'p binding \<Rightarrow> ('k, 'r) achall list \<Rightarrow> 'p authenticator \<Rightarrow>
     (error + 'r list) \<times> 'p authenticator" where
  "perform b achalls s =
     (let (r, p1) = abs_setup_credentials b (provider s);
          s1 = s\<lparr>provider := p1, trace := trace s @ [(Setup_credentials, r)]\<rparr>
      in case r of
           Some e \<Rightarrow> (Inl e, s1)
         | None \<Rightarrow>
             (let s2 = s1\<lparr>attempt_cleanup := True\<rparr>
              in case perform_loop b achalls [] s2 of
                   (Inl e, s3) \<Rightarrow> (Inl e, s3)
                 | (Inr responses, s3) \<Rightarrow>
                     (let slept = sleep (propagation_seconds s3);
                          s4 = s3\<lparr>trace := trace s3 @ [(Sleep (propagation_seconds s3), slept)]\<rparr>
                      in case slept of
                           Some e \<Rightarrow> (Inl e, s4)
                         | None \<Rightarrow> (Inr responses, s4))))"

fun cleanup_loop ::
  "'p binding \<Rightarrow> ('k, 'r) achall list \<Rightarrow> 'p authenticator \<Rightarrow> error option \<times> 'p authenticator" where
  "cleanup_loop b [] s = (None, s)"
| "cleanup_loop b (a # achalls) s =
     (let d = domain a;
          vdn = validation_domain_name a d;
          v = validation a (account_key a);
          (r, p') = abs_cleanup b d vdn v (provider s);
          s' = s\<lparr>provider := p', trace := trace s @ [(Cleanup d vdn v, r)]\<rparr>
      in case r of
           Some e \<Rightarrow> (Some e, s')
         | None \<Rightarrow> cleanup_loop b achalls s')"

definition cleanup ::
  "'p binding \<Rightarrow> ('k, 'r) achall list \<Rightarrow> 'p authenticator \<Rightarrow> error option \<times> 'p authenticator" where
  "cleanup b achalls s =
     (if attempt_cleanup s then cleanup_loop b achalls s else (None, s))"

text \<open>
  What the binding alone does when it is asked to create, or to delete, the
  records of a list of challenges in order, up to its first exception. The
  statements about \<open>perform\<close> and \<open>cleanup\<close> use these to say which calls of the
  binding succeed.
\<close>

fun create_all :: "'p binding \<Rightarrow> ('k, 'r) achall list \<Rightarrow> 'p \<Rightarrow> error option \<times> 'p" where
  "create_all b [] p = (None, p)"
| "create_all b (a # achalls) p =
     (case abs_perform b (domain a) (validation_domain_name a (domain a))
             (validation a (account_key a)) p of
        (Some e, p') \<Rightarrow> (Some e, p')
      | (None, p') \<Rightarrow> create_all b achalls p')"

fun delete_all :: "'p binding \<Rightarrow> ('k, 'r) achall list \<Rightarrow> 'p \<Rightarrow> error option \<times> 'p" where
  "delete_all b [] p = (None, p)"
| "delete_all b (a # achalls) p =
     (case abs_cleanup b (domain a) (validation_domain_name a (domain a))
             (validation a (account_key a)) p of
        (Some e, p') \<Rightarrow> (Some e, p')
      | (None, p') \<Rightarrow> delete_all b achalls p')"

definition is_cleanup :: "call \<Rightarrow> bool" where
  "is_cleanup c = (case c of Cleanup d vdn v \<Rightarrow> True | _ \<Rightarrow> False)"

subsection \<open>Configuration values and the credentials file\<close>

text \<open>
  The interactive display, \<^verbatim>\<open>certbot.display.ops\<close>: \<^verbatim>\<open>validated_input\<close> and
  \<^verbatim>\<open>validated_directory\<close> take the validator and the message and return a status
  code and the answer.
\<close>

datatype display_code = OK | CANCEL

record display =
  validated_input :: "(string \<Rightarrow> error option) \<Rightarrow> string \<Rightarrow> display_code \<times> string"
  validated_directory :: "(string \<Rightarrow> error option) \<Rightarrow> string \<Rightarrow> display_code \<times> string"

text \<open>
  Modelled from the spec: \<^verbatim>\<open>conf\<close> and \<^verbatim>\<open>dest\<close> of the base class
  \<^verbatim>\<open>common.Plugin\<close>, which is not part of this module. The shared configuration
  is read via \<^verbatim>\<open>conf(key)\<close> and written via a \<^verbatim>\<open>dest(key)\<close>-mapped attribute:
  it is a mapping from attribute names to values, \<open>dest\<close> is a parameter, and
  \<open>conf\<close> reads the attribute \<open>dest key\<close>.
\<close>

definition conf :: "(string \<Rightarrow> string) \<Rightarrow> (string \<rightharpoonup> string) \<Rightarrow> string \<Rightarrow> string option" where
  "conf dest config key = config (dest key)"

definition prompt_for_data :: "display \<Rightarrow> string \<Rightarrow> error + string" where
  "prompt_for_data disp label =
     (let validator = (\<lambda>i. if i = [] then Some (PluginError (''Please enter your '' @ label @ ''.''))
                            else None);
          (code, answer) = validated_input disp validator (''Input your '' @ label)
      in if code = OK then Inr answer
         else Inl (PluginError (label @ '' required to proceed.'')))"


definition configure ::
  "display \<Rightarrow> (string \<Rightarrow> string) \<Rightarrow> string \<Rightarrow> string \<Rightarrow> (string \<rightharpoonup> string) \<Rightarrow>
     error option \<times> (string \<rightharpoonup> string)" where
  "configure disp dest key label config =
     (let configured_value = conf dest config key
      in if \<not> truthy configured_value
         then (case prompt_for_data disp label of
                 Inl e \<Rightarrow> (Some e, config)
               | Inr new_value \<Rightarrow> (None, config(dest key \<mapsto> new_value)))
         else (None, config))"



subsection \<open>Concrete challenges and bindings\<close>

text \<open>
  The inputs the statements below are evaluated on. A challenge for a domain, with
  the validation name the ACME library derives from it; a binding that keeps the
  TXT records of its zones as a list and has no zone for \<^verbatim>\<open>unmanaged.example\<close>;
  a binding whose credentials cannot be set up; a binding whose deletion fails for
  \<^verbatim>\<open>www.example.com\<close>.
\<close>

definition example_achall :: "string \<Rightarrow> (string, string) achall" where
  "example_achall d =
     \<lparr>domain = d,
      account_key = ''account-key'',
      validation_domain_name = (\<lambda>name. ''_acme-challenge.'' @ name),
      validation = (\<lambda>key. ''token-'' @ d),
      response = (\<lambda>key. ''response-'' @ d)\<rparr>"

definition zone_binding :: "(string \<times> string) list binding" where
  "zone_binding =
     \<lparr>abs_setup_credentials = (\<lambda>p. (None, p)),
      abs_perform = (\<lambda>d vdn v p.
         if d = ''unmanaged.example'' then (Some (PluginError ''zone not found''), p)
         else (None, p @ [(vdn, v)])),
      abs_cleanup = (\<lambda>d vdn v p. (None, removeAll (vdn, v) p))\<rparr>"

definition no_credentials_binding :: "(string \<times> string) list binding" where
  "no_credentials_binding =
     zone_binding\<lparr>abs_setup_credentials :=
       (\<lambda>p. (Some (PluginError ''credentials file required to proceed.''), p))\<rparr>"

definition failing_delete_binding :: "(string \<times> string) list binding" where
  "failing_delete_binding =
     zone_binding\<lparr>abs_cleanup :=
       (\<lambda>d vdn v p.
          if d = ''www.example.com'' then (Some (PluginError ''API unreachable''), p)
          else (None, removeAll (vdn, v) p))\<rparr>"








section \<open>Properties\<close>

subsection \<open>Splitting and joining\<close>

lemma str_split_nonempty: "str_split sep s \<noteq> []"
  by (induction s) (auto simp: Let_def)

lemma length_str_split: "length (str_split sep s) = Suc (count_list s sep)"
  by (induction s) (auto simp: Let_def str_split_nonempty)

lemma str_join_Cons: "fs \<noteq> [] \<Longrightarrow> str_join sep (f # fs) = f @ sep @ str_join sep fs"
  by (cases fs) auto

lemma str_join_split: "str_join [sep] (str_split sep s) = s"
proof (induction s)
  case Nil
  show ?case by simp
next
  case (Cons c cs)
  obtain f fs where fr: "str_split sep cs = f # fs"
    using str_split_nonempty [of sep cs] by (cases "str_split sep cs") auto
  show ?case
  proof (cases "c = sep")
    case True
    then show ?thesis using Cons by (simp add: str_join_Cons str_split_nonempty)
  next
    case False
    then show ?thesis using Cons fr by (cases fs) auto
  qed
qed

lemma map_upt_Suc_shift: "map f [0..<Suc n] = f 0 # map (\<lambda>i. f (Suc i)) [0..<n]"
  by (simp only: map_upt_Suc)

lemma guesses_Cons_char:
  "base_domain_name_guesses (c # cs) =
     (c # cs) # (if c = CHR ''.'' then base_domain_name_guesses cs
                 else tl (base_domain_name_guesses cs))"
proof -
  let ?fr = "str_split CHR ''.'' cs"
  obtain f fs where fr: "?fr = f # fs"
    using str_split_nonempty [of "CHR ''.''" cs] by (cases ?fr) auto
  have whole: "str_join ''.'' (str_split CHR ''.'' (c # cs)) = c # cs"
    by (rule str_join_split)
  show ?thesis
  proof (cases "c = CHR ''.''")
    case True
    have "base_domain_name_guesses (c # cs) =
        map (\<lambda>i. str_join ''.'' (drop i ([] # ?fr))) [0..<Suc (length ?fr)]"
      using True by (simp add: base_domain_name_guesses_def Let_def)
    also have "\<dots> = str_join ''.'' ([] # ?fr) # map (\<lambda>i. str_join ''.'' (drop i ?fr)) [0..<length ?fr]"
      by (simp only: map_upt_Suc_shift drop_0 drop_Suc_Cons)
    also have "str_join ''.'' ([] # ?fr) = c # cs"
      using whole True by (simp add: Let_def)
    finally show ?thesis using True by (simp add: base_domain_name_guesses_def Let_def)
  next
    case False
    have "base_domain_name_guesses (c # cs) =
        map (\<lambda>i. str_join ''.'' (drop i ((c # f) # fs))) [0..<Suc (length fs)]"
      using False fr by (simp add: base_domain_name_guesses_def Let_def)
    also have "\<dots> = str_join ''.'' ((c # f) # fs) # map (\<lambda>i. str_join ''.'' (drop i fs)) [0..<length fs]"
      by (simp only: map_upt_Suc_shift drop_0 drop_Suc_Cons)
    also have "str_join ''.'' ((c # f) # fs) = c # cs"
      using whole False fr by (simp add: Let_def)
    also have "map (\<lambda>i. str_join ''.'' (drop i fs)) [0..<length fs] = tl (base_domain_name_guesses cs)"
      using fr by (simp add: base_domain_name_guesses_def Let_def map_upt_Suc_shift del: upt_Suc)
    finally show ?thesis using False by simp
  qed
qed

lemma guesses_eq: "base_domain_name_guesses d = d # suffixes_after_dots d"
proof (induction d)
  case Nil
  show ?case by (simp add: base_domain_name_guesses_def)
next
  case (Cons c cs)
  show ?case by (simp add: guesses_Cons_char Cons.IH)
qed

lemma length_suffixes_after_dots: "length (suffixes_after_dots d) = count_list d CHR ''.''"
  by (induction d) auto

lemma suffixes_after_dots_suffix:
  "s \<in> set (suffixes_after_dots d) \<Longrightarrow> suffix s d \<and> length s < length d"
proof (induction d)
  case Nil
  then show ?case by simp
next
  case (Cons c cs)
  then show ?case
    by (auto simp: suffix_Cons split: if_splits)
qed

lemma suffixes_after_dots_Nil: "suffixes_after_dots d = [] \<longleftrightarrow> CHR ''.'' \<notin> set d"
  by (induction d) auto

lemma final_label_no_dot: "CHR ''.'' \<notin> set d \<Longrightarrow> final_label d = d"
proof -
  assume "CHR ''.'' \<notin> set d"
  then have "takeWhile (\<lambda>c. c \<noteq> CHR ''.'') (rev d) = rev d"
    by (intro takeWhile_eq_all_conv [THEN iffD2]) auto
  then show ?thesis by (simp only: final_label_def rev_rev_ident)
qed

lemma final_label_Cons_dot:
  "CHR ''.'' \<in> set cs \<Longrightarrow> final_label (c # cs) = final_label cs"
  by (simp add: final_label_def takeWhile_append1)

lemma final_label_dot_Cons:
  "CHR ''.'' \<notin> set cs \<Longrightarrow> final_label (CHR ''.'' # cs) = cs"
proof -
  assume "CHR ''.'' \<notin> set cs"
  then have "takeWhile (\<lambda>c. c \<noteq> CHR ''.'') (rev cs @ [CHR ''.'']) = rev cs"
    by (subst takeWhile_append2) auto
  then show ?thesis by (simp add: final_label_def)
qed

lemma last_suffixes_after_dots:
  "suffixes_after_dots d \<noteq> [] \<Longrightarrow> last (suffixes_after_dots d) = final_label d"
proof (induction d)
  case Nil
  then show ?case by simp
next
  case (Cons c cs)
  show ?case
  proof (cases "CHR ''.'' \<in> set cs")
    case True
    then have "suffixes_after_dots cs \<noteq> []" by (simp add: suffixes_after_dots_Nil)
    then show ?thesis using Cons.IH True by (simp add: final_label_Cons_dot)
  next
    case False
    then have e: "suffixes_after_dots cs = []" by (simp add: suffixes_after_dots_Nil)
    with Cons.prems have "c = CHR ''.''" by (simp split: if_splits)
    then show ?thesis using e False by (simp add: final_label_dot_Cons)
  qed
qed

lemma last_guess: "last (d # suffixes_after_dots d) = final_label d"
  using last_suffixes_after_dots [of d] final_label_no_dot [of d] suffixes_after_dots_Nil [of d]
  by (cases "suffixes_after_dots d = []") auto

lemma suffixes_after_dots_decreasing: "sorted_wrt (\<lambda>a b. length b < length a) (d # suffixes_after_dots d)"
proof (induction d)
  case Nil
  show ?case by simp
next
  case (Cons c cs)
  have "\<forall>s \<in> set (suffixes_after_dots cs). length s < length cs"
    using suffixes_after_dots_suffix by blast
  then show ?case using Cons by auto
qed

lemma guesses_all_suffixes: "list_all (\<lambda>s. suffix s d) (d # suffixes_after_dots d)"
  using suffixes_after_dots_suffix [of _ d] by (auto simp: list_all_iff)

subsection \<open>The domain name guesses\<close>

lemma guesses_example_suffixes: "suffixes_after_dots ''foo.bar.baz.example.com'' =
      [''bar.baz.example.com'', ''baz.example.com'', ''example.com'', ''com'']"
  by code_simp

text \<open>
  C5. For every string \<open>d\<close>, \<open>base_domain_name_guesses d\<close> is \<open>d\<close> followed by
  the suffixes of \<open>d\<close> that start right after each of its dots, from left to
  right (every right-aligned dot-separated suffix, most specific first); its
  length is the number of dots of \<open>d\<close> plus one, its first element is \<open>d\<close>, its
  last element is the final label of \<open>d\<close>; the guesses of
  \<^verbatim>\<open>foo.bar.baz.example.com\<close> are the five of the docstring, and the empty string
  gives the one-element list of the empty string.
\<close>

theorem base_domain_name_guesses_suffixes:
  "base_domain_name_guesses d = d # suffixes_after_dots d
   \<and> length (base_domain_name_guesses d) = count_list d CHR ''.'' + 1
   \<and> hd (base_domain_name_guesses d) = d
   \<and> last (base_domain_name_guesses d) = final_label d
   \<and> base_domain_name_guesses ''foo.bar.baz.example.com'' =
       [''foo.bar.baz.example.com'', ''bar.baz.example.com'', ''baz.example.com'',
        ''example.com'', ''com'']
   \<and> base_domain_name_guesses [] = [[]]"
proof -
  have len: "length (base_domain_name_guesses d) = count_list d CHR ''.'' + 1"
    by (simp only: guesses_eq length_suffixes_after_dots list.size)
  have first: "hd (base_domain_name_guesses d) = d"
    by (simp only: guesses_eq list.sel)
  have final: "last (base_domain_name_guesses d) = final_label d"
    by (simp only: guesses_eq last_guess)
  have example: "base_domain_name_guesses ''foo.bar.baz.example.com'' =
       [''foo.bar.baz.example.com'', ''bar.baz.example.com'', ''baz.example.com'',
        ''example.com'', ''com'']"
    by (simp only: guesses_eq guesses_example_suffixes)
  have empty: "base_domain_name_guesses [] = [[]]"
    by (simp only: guesses_eq suffixes_after_dots.simps)
  from guesses_eq [of d] len first final example empty show ?thesis
    by (intro conjI)
qed

text \<open>
  C10. For every string \<open>d\<close>, with leading, trailing or consecutive dots or not,
  every element of \<open>base_domain_name_guesses d\<close> is a suffix of \<open>d\<close>, and each
  element is strictly shorter than the one before it (hence than all before it).
\<close>

theorem base_domain_name_guesses_decreasing:
  "list_all (\<lambda>s. suffix s d) (base_domain_name_guesses d)
   \<and> successively (\<lambda>s t. length t < length s) (base_domain_name_guesses d)
   \<and> sorted_wrt (\<lambda>s t. length t < length s) (base_domain_name_guesses d)"
  using guesses_all_suffixes [of d] suffixes_after_dots_decreasing [of d]
    successively_if_sorted_wrt [OF suffixes_after_dots_decreasing [of d]]
  by (simp only: guesses_eq)

subsection \<open>The loops of perform and cleanup\<close>

lemma perform_loop_flag:
  "attempt_cleanup (snd (perform_loop b achalls rs s)) = attempt_cleanup s"
  by (induction achalls arbitrary: rs s) (auto simp: Let_def split: prod.splits option.splits)

lemma cleanup_loop_flag:
  "attempt_cleanup (snd (cleanup_loop b cs s)) = attempt_cleanup s"
  by (induction cs arbitrary: s) (auto simp: Let_def split: prod.splits option.splits)


lemma perform_loop_fail:
  "create_all b pre (provider s) = (None, p2) \<Longrightarrow>
   abs_perform b (domain a) (validation_domain_name a (domain a))
     (validation a (account_key a)) p2 = (Some e, p3) \<Longrightarrow>
   perform_loop b (pre @ a # post) rs s =
     (Inl e,
      s\<lparr>provider := p3,
        trace := trace s @ map (\<lambda>a. (perform_call a, None)) pre @ [(perform_call a, Some e)]\<rparr>)"
proof (induction pre arbitrary: rs s)
  case Nil
  then show ?case by (simp add: Let_def perform_call_def)
next
  case (Cons x pre)
  then show ?case
    by (auto simp: Let_def perform_call_def split: prod.splits option.splits)
qed

subsection \<open>The whole of perform\<close>


lemma perform_create_fails:
  assumes "abs_setup_credentials b (provider s) = (None, p1)"
      and "create_all b pre p1 = (None, p2)"
      and "abs_perform b (domain a) (validation_domain_name a (domain a))
             (validation a (account_key a)) p2 = (Some e, p3)"
  shows "perform b (pre @ a # post) s =
     (Inl e,
      s\<lparr>attempt_cleanup := True, provider := p3,
        trace := trace s @ [(Setup_credentials, None)] @
                 map (\<lambda>a. (perform_call a, None)) pre @ [(perform_call a, Some e)]\<rparr>)"
proof -
  let ?s2 = "s\<lparr>provider := p1, trace := trace s @ [(Setup_credentials, None)],
               attempt_cleanup := True\<rparr>"
  have "create_all b pre (provider ?s2) = (None, p2)"
    using assms(2) by simp
  from perform_loop_fail [OF this assms(3), of post "[]"]
  have loop: "perform_loop b (pre @ a # post) [] ?s2 =
     (Inl e,
      ?s2\<lparr>provider := p3,
        trace := trace ?s2 @ map (\<lambda>a. (perform_call a, None)) pre @ [(perform_call a, Some e)]\<rparr>)"
    by simp
  show ?thesis
    using assms(1) loop by (simp add: perform_def Let_def)
qed

lemma perform_flag:
  "attempt_cleanup (snd (perform b achalls s)) =
     (attempt_cleanup s \<or> fst (abs_setup_credentials b (provider s)) = None)"
proof (cases "abs_setup_credentials b (provider s)")
  case (Pair r p1)
  show ?thesis
  proof (cases r)
    case None
    let ?s2 = "s\<lparr>provider := p1, trace := trace s @ [(Setup_credentials, None)],
                 attempt_cleanup := True\<rparr>"
    have "attempt_cleanup (snd (perform_loop b achalls [] ?s2))"
      by (simp add: perform_loop_flag)
    then show ?thesis using Pair None
      by (auto simp: perform_def Let_def split: prod.splits sum.splits option.splits)
  next
    case (Some e)
    then show ?thesis using Pair by (simp add: perform_def)
  qed
qed

lemma cleanup_loop_ok_eq:
  "delete_all b cs (provider s) = (None, p') \<Longrightarrow>
   cleanup_loop b cs s =
     (None, s\<lparr>provider := p', trace := trace s @ map (\<lambda>a. (cleanup_call a, None)) cs\<rparr>)"
proof (induction cs arbitrary: s)
  case Nil
  then show ?case by simp
next
  case (Cons a cs)
  then show ?case
    by (auto simp: Let_def cleanup_call_def split: prod.splits option.splits)
qed


subsection \<open>Messages\<close>





subsection \<open>File permissions\<close>







subsection \<open>Statements about perform\<close>






text \<open>
  C2. \<open>perform\<close> sets \<open>attempt_cleanup\<close> before its loop. When the credentials are
  set up, the binding creates the records of the first \<open>k - 1\<close> challenges and
  raises on the \<open>k\<close>-th (counted from one), \<open>perform\<close> raises that exception and
  returns no responses; the instance is left with \<open>attempt_cleanup\<close> true and
  with the provider in the state the \<open>k - 1\<close> creates and the failed call have
  produced; and the creates it has called are those of the first \<open>k\<close> challenges,
  in order: \<open>k - 1\<close> successful ones and the failed one, none after it.
\<close>

theorem perform_fails_on_kth_challenge:
  assumes "abs_setup_credentials b (provider s) = (None, p1)"
      and "1 \<le> k" and "k \<le> length achalls"
      and "create_all b (take (k - 1) achalls) p1 = (None, p2)"
      and "abs_perform b (domain (achalls ! (k - 1)))
             (validation_domain_name (achalls ! (k - 1)) (domain (achalls ! (k - 1))))
             (validation (achalls ! (k - 1)) (account_key (achalls ! (k - 1)))) p2 = (Some e, p3)"
  shows "perform b achalls s =
           (Inl e,
            s\<lparr>attempt_cleanup := True, provider := p3,
              trace := trace s @ [(Setup_credentials, None)] @
                       map (\<lambda>a. (perform_call a, None)) (take (k - 1) achalls) @
                       [(perform_call (achalls ! (k - 1)), Some e)]\<rparr>)
       \<and> attempt_cleanup (snd (perform b achalls s))
       \<and> provider (snd (perform b achalls s)) = p3
       \<and> length (map (\<lambda>a. (perform_call a, None :: error option)) (take (k - 1) achalls)) = k - 1"
proof -
  have lt: "k - 1 < length achalls" using assms(2,3) by simp
  have split_list: "achalls = take (k - 1) achalls @ achalls ! (k - 1) # drop (Suc (k - 1)) achalls"
    using id_take_nth_drop [OF lt] .
  have "perform b (take (k - 1) achalls @ achalls ! (k - 1) # drop (Suc (k - 1)) achalls) s =
     (Inl e,
      s\<lparr>attempt_cleanup := True, provider := p3,
        trace := trace s @ [(Setup_credentials, None)] @
                 map (\<lambda>a. (perform_call a, None)) (take (k - 1) achalls) @
                 [(perform_call (achalls ! (k - 1)), Some e)]\<rparr>)"
    by (rule perform_create_fails [OF assms(1,4,5)])
  then have "perform b achalls s =
     (Inl e,
      s\<lparr>attempt_cleanup := True, provider := p3,
        trace := trace s @ [(Setup_credentials, None)] @
                 map (\<lambda>a. (perform_call a, None)) (take (k - 1) achalls) @
                 [(perform_call (achalls ! (k - 1)), Some e)]\<rparr>)"
    using split_list by simp
  then show ?thesis using lt by simp
qed

theorem perform_fails_on_kth_challenge_witness:
  "perform zone_binding
      [example_achall ''example.com'', example_achall ''unmanaged.example'',
       example_achall ''www.example.com'']
      (DNSAuthenticator 10 []) =
     (Inl (PluginError ''zone not found''),
      \<lparr>attempt_cleanup = True, propagation_seconds = 10,
       provider = [(''_acme-challenge.example.com'', ''token-example.com'')],
       trace =
         [(Setup_credentials, None),
          (Perform ''example.com'' ''_acme-challenge.example.com'' ''token-example.com'', None),
          (Perform ''unmanaged.example'' ''_acme-challenge.unmanaged.example''
             ''token-unmanaged.example'', Some (PluginError ''zone not found''))]\<rparr>)"
proof -
  let ?s = "DNSAuthenticator 10 [] :: (string \<times> string) list authenticator"
  let ?as = "[example_achall ''example.com'', example_achall ''unmanaged.example'',
              example_achall ''www.example.com'']"
  let ?p2 = "[(''_acme-challenge.example.com'', ''token-example.com'')]"
  have h1: "abs_setup_credentials zone_binding (provider ?s) = (None, [])"
    by (simp add: zone_binding_def DNSAuthenticator_def)
  have h2: "1 \<le> (2::nat)" by simp
  have h3: "2 \<le> length ?as" by simp
  have h4: "create_all zone_binding (take (2 - 1) ?as) [] = (None, ?p2)"
    by (simp add: zone_binding_def example_achall_def)
  have h5: "abs_perform zone_binding (domain (?as ! (2 - 1)))
             (validation_domain_name (?as ! (2 - 1)) (domain (?as ! (2 - 1))))
             (validation (?as ! (2 - 1)) (account_key (?as ! (2 - 1)))) ?p2 =
           (Some (PluginError ''zone not found''), ?p2)"
    by (simp add: zone_binding_def example_achall_def)
  from perform_fails_on_kth_challenge [OF h1 h2 h3 h4 h5, THEN conjunct1] show ?thesis
    by (simp add: DNSAuthenticator_def example_achall_def perform_call_def)
qed







subsection \<open>Statements about cleanup\<close>

lemma cleanup_loop_fail:
  "delete_all b pre (provider s) = (None, p2) \<Longrightarrow>
   abs_cleanup b (domain a) (validation_domain_name a (domain a))
     (validation a (account_key a)) p2 = (Some e, p3) \<Longrightarrow>
   cleanup_loop b (pre @ a # post) s =
     (Some e,
      s\<lparr>provider := p3,
        trace := trace s @ map (\<lambda>a. (cleanup_call a, None)) pre @ [(cleanup_call a, Some e)]\<rparr>)"
proof (induction pre arbitrary: s)
  case Nil
  then show ?case by (simp add: Let_def cleanup_call_def)
next
  case (Cons x pre)
  then show ?case
    by (auto simp: Let_def cleanup_call_def split: prod.splits option.splits)
qed

lemma delete_all_cases:
  "(\<exists>p'. delete_all b cs p = (None, p')) \<or>
   (\<exists>pre a post p2 e p3. cs = pre @ a # post \<and> delete_all b pre p = (None, p2) \<and>
      abs_cleanup b (domain a) (validation_domain_name a (domain a))
        (validation a (account_key a)) p2 = (Some e, p3))"
proof (induction cs arbitrary: p)
  case Nil
  show ?case by simp
next
  case (Cons c cs)
  obtain r q where call: "abs_cleanup b (domain c) (validation_domain_name c (domain c))
      (validation c (account_key c)) p = (r, q)"
    by (cases "abs_cleanup b (domain c) (validation_domain_name c (domain c))
      (validation c (account_key c)) p")
  show ?case
  proof (cases r)
    case (Some e)
    have "c # cs = [] @ c # cs" and "delete_all b [] p = (None, p)" by simp_all
    with call Some show ?thesis by blast
  next
    case None
    from Cons.IH [of q] show ?thesis
    proof
      assume "\<exists>p'. delete_all b cs q = (None, p')"
      then show ?thesis using call None by simp
    next
      assume "\<exists>pre a post p2 e p3. cs = pre @ a # post \<and> delete_all b pre q = (None, p2) \<and>
        abs_cleanup b (domain a) (validation_domain_name a (domain a))
          (validation a (account_key a)) p2 = (Some e, p3)"
      then obtain pre a post p2 e p3 where
        "cs = pre @ a # post" "delete_all b pre q = (None, p2)"
        "abs_cleanup b (domain a) (validation_domain_name a (domain a))
          (validation a (account_key a)) p2 = (Some e, p3)"
        by blast
      then have "c # cs = (c # pre) @ a # post" "delete_all b (c # pre) p = (None, p2)"
        "abs_cleanup b (domain a) (validation_domain_name a (domain a))
          (validation a (account_key a)) p2 = (Some e, p3)"
        using call None by simp_all
      then show ?thesis by blast
    qed
  qed
qed

text \<open>
  C3, as amended. \<open>cleanup\<close> never changes \<open>attempt_cleanup\<close>. When the flag is
  false it calls no deletion and changes nothing. When the flag is true it calls
  the deletion of the challenges in input order and stops at the first call that
  raises: when no deletion raises, the deletion of every challenge has been
  called, once each, and \<open>cleanup\<close> returns; when the deletions of the
  challenges before one succeed and the deletion of that one raises, those and
  the failed one have been called, none after it, the provider is left in the
  state the failed call has left, and \<open>cleanup\<close> raises that exception. One of the
  two is the case for every list. The flag is false on a fresh instance, and a
  \<open>perform\<close> sets it exactly when its \<^verbatim>\<open>_setup_credentials\<close> returns: a \<open>perform\<close>
  whose set-up raises leaves it as it was.
\<close>

theorem cleanup_gated_by_flag:
  "attempt_cleanup (snd (cleanup b cs s)) = attempt_cleanup s
   \<and> (\<not> attempt_cleanup s \<longrightarrow> cleanup b cs s = (None, s))
   \<and> (attempt_cleanup s \<longrightarrow> delete_all b cs (provider s) = (None, p') \<longrightarrow>
        cleanup b cs s =
          (None, s\<lparr>provider := p',
                    trace := trace s @ map (\<lambda>a. (cleanup_call a, None)) cs\<rparr>))
   \<and> (attempt_cleanup s \<longrightarrow> cs = pre @ a # post \<longrightarrow>
        delete_all b pre (provider s) = (None, p2) \<longrightarrow>
        abs_cleanup b (domain a) (validation_domain_name a (domain a))
          (validation a (account_key a)) p2 = (Some e, p3) \<longrightarrow>
        cleanup b cs s =
          (Some e, s\<lparr>provider := p3,
                      trace := trace s @ map (\<lambda>a. (cleanup_call a, None)) pre @
                               [(cleanup_call a, Some e)]\<rparr>))
   \<and> ((\<exists>q. delete_all b cs (provider s) = (None, q)) \<or>
       (\<exists>pre' a' post' q e' q'. cs = pre' @ a' # post' \<and>
          delete_all b pre' (provider s) = (None, q) \<and>
          abs_cleanup b (domain a') (validation_domain_name a' (domain a'))
            (validation a' (account_key a')) q = (Some e', q')))
   \<and> \<not> attempt_cleanup (DNSAuthenticator seconds (provider s))
   \<and> attempt_cleanup (snd (perform b (achalls :: ('k, 'r) achall list) s)) =
       (attempt_cleanup s \<or> fst (abs_setup_credentials b (provider s)) = None)"
proof -
  have flag: "attempt_cleanup (snd (cleanup b cs s)) = attempt_cleanup s"
    by (simp add: cleanup_def cleanup_loop_flag)
  have noop: "\<not> attempt_cleanup s \<longrightarrow> cleanup b cs s = (None, s)"
    by (simp add: cleanup_def)
  have all: "attempt_cleanup s \<longrightarrow> delete_all b cs (provider s) = (None, p') \<longrightarrow>
        cleanup b cs s =
          (None, s\<lparr>provider := p',
                    trace := trace s @ map (\<lambda>a. (cleanup_call a, None)) cs\<rparr>)"
    by (simp add: cleanup_def cleanup_loop_ok_eq)
  have stop: "attempt_cleanup s \<longrightarrow> cs = pre @ a # post \<longrightarrow>
        delete_all b pre (provider s) = (None, p2) \<longrightarrow>
        abs_cleanup b (domain a) (validation_domain_name a (domain a))
          (validation a (account_key a)) p2 = (Some e, p3) \<longrightarrow>
        cleanup b cs s =
          (Some e, s\<lparr>provider := p3,
                      trace := trace s @ map (\<lambda>a. (cleanup_call a, None)) pre @
                               [(cleanup_call a, Some e)]\<rparr>)"
    by (simp add: cleanup_def cleanup_loop_fail)
  have fresh: "\<not> attempt_cleanup (DNSAuthenticator seconds (provider s))"
    by (simp add: DNSAuthenticator_def)
  from flag noop all stop delete_all_cases [of b cs "provider s"] fresh
    perform_flag [of b achalls s]
  show ?thesis by (intro conjI)
qed

theorem cleanup_gated_by_flag_witness:
  "cleanup zone_binding [example_achall ''example.com'']
     (DNSAuthenticator 10 [(''_acme-challenge.example.com'', ''token-example.com'')]) =
     (None, DNSAuthenticator 10 [(''_acme-challenge.example.com'', ''token-example.com'')])
   \<and> cleanup zone_binding [example_achall ''example.com'']
       \<lparr>attempt_cleanup = True, propagation_seconds = 10,
        provider = [(''_acme-challenge.example.com'', ''token-example.com'')],
        trace = []\<rparr> =
     (None,
      \<lparr>attempt_cleanup = True, propagation_seconds = 10, provider = [],
       trace = [(Cleanup ''example.com'' ''_acme-challenge.example.com''
                   ''token-example.com'', None)]\<rparr>)
   \<and> cleanup failing_delete_binding
       [example_achall ''example.com'', example_achall ''www.example.com'',
        example_achall ''mail.example.com'']
       \<lparr>attempt_cleanup = True, propagation_seconds = 10,
        provider = [(''_acme-challenge.example.com'', ''token-example.com''),
                    (''_acme-challenge.www.example.com'', ''token-www.example.com''),
                    (''_acme-challenge.mail.example.com'', ''token-mail.example.com'')],
        trace = []\<rparr> =
     (Some (PluginError ''API unreachable''),
      \<lparr>attempt_cleanup = True, propagation_seconds = 10,
       provider = [(''_acme-challenge.www.example.com'', ''token-www.example.com''),
                   (''_acme-challenge.mail.example.com'', ''token-mail.example.com'')],
       trace = [(Cleanup ''example.com'' ''_acme-challenge.example.com''
                   ''token-example.com'', None),
                (Cleanup ''www.example.com'' ''_acme-challenge.www.example.com''
                   ''token-www.example.com'', Some (PluginError ''API unreachable''))]\<rparr>)"
proof -
  let ?p = "[(''_acme-challenge.example.com'', ''token-example.com'')]"
  let ?t = "\<lparr>attempt_cleanup = True, propagation_seconds = 10, provider = ?p, trace = []\<rparr>"
  let ?q = "[(''_acme-challenge.example.com'', ''token-example.com''),
             (''_acme-challenge.www.example.com'', ''token-www.example.com''),
             (''_acme-challenge.mail.example.com'', ''token-mail.example.com'')]"
  let ?q2 = "[(''_acme-challenge.www.example.com'', ''token-www.example.com''),
              (''_acme-challenge.mail.example.com'', ''token-mail.example.com'')]"
  let ?u = "\<lparr>attempt_cleanup = True, propagation_seconds = 10, provider = ?q, trace = []\<rparr>"
  let ?cs = "[example_achall ''example.com'', example_achall ''www.example.com'',
              example_achall ''mail.example.com'']"
  note a = cleanup_gated_by_flag [of zone_binding "[example_achall ''example.com'']"
      "DNSAuthenticator 10 ?p" _ _ _ _ _ _ _ 10 "[] :: (string, string) achall list",
      THEN conjunct2, THEN conjunct1]
  note b = cleanup_gated_by_flag [of zone_binding "[example_achall ''example.com'']"
      ?t "[]" _ _ _ _ _ _ 10 "[] :: (string, string) achall list",
      THEN conjunct2, THEN conjunct2, THEN conjunct1]
  note c = cleanup_gated_by_flag [of failing_delete_binding ?cs ?u _
      "[example_achall ''example.com'']" "example_achall ''www.example.com''"
      "[example_achall ''mail.example.com'']" ?q2 "PluginError ''API unreachable''" ?q2
      10 "[] :: (string, string) achall list",
      THEN conjunct2, THEN conjunct2, THEN conjunct2, THEN conjunct1]
  have 1: "cleanup zone_binding [example_achall ''example.com''] (DNSAuthenticator 10 ?p) =
      (None, DNSAuthenticator 10 ?p)"
    using a by (simp add: DNSAuthenticator_def)
  have 2: "cleanup zone_binding [example_achall ''example.com''] ?t =
      (None, \<lparr>attempt_cleanup = True, propagation_seconds = 10, provider = [],
       trace = [(Cleanup ''example.com'' ''_acme-challenge.example.com''
                   ''token-example.com'', None)]\<rparr>)"
    using b by (simp add: zone_binding_def example_achall_def cleanup_call_def)
  have 3: "cleanup failing_delete_binding ?cs ?u =
     (Some (PluginError ''API unreachable''),
      \<lparr>attempt_cleanup = True, propagation_seconds = 10, provider = ?q2,
       trace = [(Cleanup ''example.com'' ''_acme-challenge.example.com''
                   ''token-example.com'', None),
                (Cleanup ''www.example.com'' ''_acme-challenge.www.example.com''
                   ''token-www.example.com'', Some (PluginError ''API unreachable''))]\<rparr>)"
    using c
    by (simp add: failing_delete_binding_def zone_binding_def example_achall_def
          cleanup_call_def)
  from 1 2 3 show ?thesis by (intro conjI)
qed

text \<open>
  C3 as it was stated fails on two inputs. After a \<open>perform\<close> whose set-up
  raised, \<open>perform\<close> has been called on the instance and \<open>cleanup\<close> still calls no
  deletion. And when a deletion raises, \<open>cleanup\<close> stops: after a \<open>perform\<close> that
  has created three records, the deletion of the second challenge raises and
  the deletion of the third is not called.
\<close>

theorem cleanup_after_perform_counterexample:
  "map fst (trace (snd (perform no_credentials_binding [example_achall ''example.com'']
      (DNSAuthenticator 10 [])))) = [Setup_credentials]
   \<and> filter is_cleanup (map fst (trace (snd
        (cleanup no_credentials_binding [example_achall ''example.com'']
          (snd (perform no_credentials_binding [example_achall ''example.com'']
             (DNSAuthenticator 10 []))))))) = []
   \<and> filter is_cleanup (map fst (trace (snd
        (cleanup no_credentials_binding [example_achall ''example.com'']
          (snd (perform no_credentials_binding [example_achall ''example.com'']
             (DNSAuthenticator 10 []))))))) \<noteq> map cleanup_call [example_achall ''example.com'']
   \<and> attempt_cleanup (snd (perform failing_delete_binding
        [example_achall ''example.com'', example_achall ''www.example.com'',
         example_achall ''mail.example.com'']
        (DNSAuthenticator 10 [])))
   \<and> filter is_cleanup (map fst (trace (snd
        (cleanup failing_delete_binding
          [example_achall ''example.com'', example_achall ''www.example.com'',
           example_achall ''mail.example.com'']
          (snd (perform failing_delete_binding
             [example_achall ''example.com'', example_achall ''www.example.com'',
              example_achall ''mail.example.com'']
             (DNSAuthenticator 10 []))))))) =
       [Cleanup ''example.com'' ''_acme-challenge.example.com'' ''token-example.com'',
        Cleanup ''www.example.com'' ''_acme-challenge.www.example.com''
          ''token-www.example.com'']
   \<and> filter is_cleanup (map fst (trace (snd
        (cleanup failing_delete_binding
          [example_achall ''example.com'', example_achall ''www.example.com'',
           example_achall ''mail.example.com'']
          (snd (perform failing_delete_binding
             [example_achall ''example.com'', example_achall ''www.example.com'',
              example_achall ''mail.example.com'']
             (DNSAuthenticator 10 []))))))) \<noteq>
       map cleanup_call [example_achall ''example.com'', example_achall ''www.example.com'',
                         example_achall ''mail.example.com'']"
  by (simp add: perform_def cleanup_def Let_def no_credentials_binding_def
        failing_delete_binding_def zone_binding_def DNSAuthenticator_def example_achall_def
        sleep_def sleep_max_def is_cleanup_def cleanup_call_def)

subsection \<open>Statements about require\<close>















subsection \<open>Statements about the credentials of a plugin\<close>






end
